theory Spec2Isabelle
  imports Main "HOL-Library.Word" "HOL-Library.Multiset" "HOL-Library.Sublist"
begin

section \<open>The tag editor widget (web/src/components/edit-tag/index.tsx)\<close>

subsection \<open>Strings of the host language\<close>

text \<open>
  A string of the source language is a finite sequence of 16-bit code units; equality
  (\<open>===\<close>, \<open>!==\<close>, \<open>includes\<close>) compares the code units one by one, so it is
  case-sensitive. The empty string is the only falsy string.
\<close>

type_synonym code_unit = "16 word"
type_synonym jsstring = "code_unit list"

text \<open>An ASCII literal of the source, read as its code units.\<close>

definition str :: "string \<Rightarrow> jsstring" where
  "str s = map (\<lambda>c. of_nat (of_char c)) s"

definition truthy :: "jsstring \<Rightarrow> bool" where
  "truthy s = (s \<noteq> [])"

text \<open>
  \<open>String.prototype.trim\<close> strips white space and line terminators from both ends:
  TAB, LF, VT, FF, CR, SPACE, NBSP, the other space separators (U+1680, U+2000 to
  U+200A, U+202F, U+205F, U+3000), the line and paragraph separators and the byte-order
  mark.
\<close>

definition is_whitespace :: "code_unit \<Rightarrow> bool" where
  "is_whitespace c =
     (c = 0x0009 \<or> c = 0x000A \<or> c = 0x000B \<or> c = 0x000C \<or> c = 0x000D \<or>
      c = 0x0020 \<or> c = 0x00A0 \<or> c = 0x1680 \<or> (0x2000 \<le> c \<and> c \<le> 0x200A) \<or>
      c = 0x2028 \<or> c = 0x2029 \<or> c = 0x202F \<or> c = 0x205F \<or> c = 0x3000 \<or>
      c = 0xFEFF)"

definition trim :: "jsstring \<Rightarrow> jsstring" where
  "trim s = rev (dropWhile is_whitespace (rev (dropWhile is_whitespace s)))"

text \<open>
  \<open>s.split(sep)\<close> for a separator of one code unit: the pieces between the
  separators, in order. The empty string splits into one empty piece, and \<open>n\<close>
  separators always give \<open>n + 1\<close> pieces.
\<close>

fun split_on :: "code_unit \<Rightarrow> jsstring \<Rightarrow> jsstring list" where
  "split_on sep [] = [[]]"
| "split_on sep (c # cs) =
     (if c = sep then [] # split_on sep cs
      else (case split_on sep cs of
              [] \<Rightarrow> [[c]]
            | piece # pieces \<Rightarrow> (c # piece) # pieces))"

definition semicolon :: code_unit where
  "semicolon = 0x003B"

definition array_includes :: "jsstring list \<Rightarrow> jsstring \<Rightarrow> bool" where
  "array_includes xs x = (x \<in> set xs)"

subsection \<open>Props, state and effects\<close>

text \<open>
  \<open>EditTagsProps\<close>: both props are optional. The callback is opaque to the widget; all
  that matters is whether it was supplied and with which arguments it is called, so it is
  modelled by a flag and by the list of arguments of the calls made.
\<close>

record EditTagsProps =
  prop_value :: "jsstring list option"
  prop_onChange :: bool

text \<open>The two \<open>useState\<close> cells of the component.\<close>

record state =
  inputVisible :: bool
  inputValue :: jsstring

definition initial_state :: state where
  "initial_state = \<lparr>inputVisible = False, inputValue = []\<rparr>"

text \<open>What an event handler leaves behind: the next state and the calls of \<open>onChange\<close>.\<close>

record outcome =
  next_state :: state
  onChange_calls :: "jsstring list list"

text \<open>The destructuring default \<open>value = []\<close>.\<close>

definition value_of :: "EditTagsProps \<Rightarrow> jsstring list" where
  "value_of p = (case prop_value p of None \<Rightarrow> [] | Some v \<Rightarrow> v)"

text \<open>The optional call \<open>onChange?.(tags)\<close>: nothing happens when the callback is absent.\<close>

definition call_onChange :: "EditTagsProps \<Rightarrow> jsstring list \<Rightarrow> jsstring list list" where
  "call_onChange p tags = (if prop_onChange p then [tags] else [])"

subsection \<open>The event handlers\<close>

text \<open>
  The \<open>console.log\<close> lines of the handlers are not modelled. After the default, \<open>value\<close>
  is never nullish, so \<open>value?.filter\<close>, \<open>newTags ?? []\<close> and \<open>value || []\<close> are the
  plain operations.
\<close>

definition handleClose :: "EditTagsProps \<Rightarrow> state \<Rightarrow> jsstring \<Rightarrow> outcome" where
  "handleClose p s removedTag =
     (let newTags = filter (\<lambda>tag. tag \<noteq> removedTag) (value_of p)
      in \<lparr>next_state = s, onChange_calls = call_onChange p newTags\<rparr>)"

definition showInput :: "state \<Rightarrow> state" where
  "showInput s = s\<lparr>inputVisible := True\<rparr>"

definition handleInputChange :: "state \<Rightarrow> jsstring \<Rightarrow> state" where
  "handleInputChange s typed = s\<lparr>inputValue := typed\<rparr>"

definition newTags_of :: "jsstring list \<Rightarrow> jsstring \<Rightarrow> jsstring list" where
  "newTags_of v pending =
     filter (\<lambda>tag. truthy tag \<and> \<not> array_includes v tag)
       (map trim (split_on semicolon pending))"

definition handleInputConfirm :: "EditTagsProps \<Rightarrow> state \<Rightarrow> outcome" where
  "handleInputConfirm p s =
     \<lparr>next_state = s\<lparr>inputVisible := False, inputValue := []\<rparr>,
      onChange_calls =
        (if truthy (inputValue s)
         then call_onChange p (value_of p @ newTags_of (value_of p) (inputValue s))
         else [])\<rparr>"

subsection \<open>The rendered controls and their events\<close>

text \<open>
  The text input is rendered only while \<open>inputVisible\<close> holds and the add button only
  otherwise; a chip with its removal control is rendered for every element of \<open>value\<close>.
  An event on a control that is not rendered cannot occur (\<open>None\<close>). The input commits
  on blur and on a key-down whose key is \<open>Enter\<close>; any other key does nothing.
\<close>

datatype event =
    Chip_click jsstring
  | Button_click
  | Input_change jsstring
  | Input_blur
  | Input_keydown jsstring

definition fire :: "EditTagsProps \<Rightarrow> state \<Rightarrow> event \<Rightarrow> outcome option" where
  "fire p s ev =
     (case ev of
        Chip_click tag \<Rightarrow>
          (if array_includes (value_of p) tag then Some (handleClose p s tag) else None)
      | Button_click \<Rightarrow>
          (if inputVisible s then None
           else Some \<lparr>next_state = showInput s, onChange_calls = []\<rparr>)
      | Input_change typed \<Rightarrow>
          (if inputVisible s
           then Some \<lparr>next_state = handleInputChange s typed, onChange_calls = []\<rparr>
           else None)
      | Input_blur \<Rightarrow>
          (if inputVisible s then Some (handleInputConfirm p s) else None)
      | Input_keydown key \<Rightarrow>
          (if inputVisible s
           then (if key = str ''Enter'' then Some (handleInputConfirm p s)
                 else Some \<lparr>next_state = s, onChange_calls = []\<rparr>)
           else None))"

section \<open>Properties\<close>

subsection \<open>Auxiliary facts\<close>

lemmas widget_defs =
  handleClose_def handleInputConfirm_def newTags_of_def call_onChange_def value_of_def
  truthy_def array_includes_def

lemmas eval_defs = widget_defs str_def semicolon_def trim_def is_whitespace_def

lemma mset_filter_neq:
  "mset xs = mset (filter (\<lambda>t. t \<noteq> L) xs) + replicate_mset (count_list xs L) L"
  by (induction xs) auto

lemma length_filter_neq:
  "length (filter (\<lambda>t. t \<noteq> L) xs) = length xs - count_list xs L"
  by (induction xs) (auto simp: Suc_diff_le count_le_length)

lemma filter_neq_absent: "count_list xs L = 0 \<Longrightarrow> filter (\<lambda>t. t \<noteq> L) xs = xs"
  by (induction xs) (auto split: if_splits)

lemma filter_neq_remove1:
  "count_list xs L = 1 \<Longrightarrow> filter (\<lambda>t. t \<noteq> L) xs = remove1 L xs"
  by (induction xs) (auto simp: filter_neq_absent)

lemma newTags_of_sound:
  "t \<in> set (newTags_of v pending) \<Longrightarrow>
     t \<noteq> [] \<and> t \<notin> set v \<and> t \<in> trim ` set (split_on semicolon pending)"
  by (auto simp: newTags_of_def truthy_def array_includes_def)

lemma all_candidates_filtered:
  "\<forall>c \<in> set cs. trim c = [] \<or> trim c \<in> set v \<Longrightarrow>
     filter (\<lambda>tag. truthy tag \<and> \<not> array_includes v tag) (map trim cs) = []"
  by (induction cs) (auto simp: truthy_def array_includes_def)

subsection \<open>Adding tags\<close>

text \<open>
  Claim C1 (the commit keeps the collection free of duplicates and of empty labels, also
  when a new candidate is repeated within one input). The filter of the commit compares
  every candidate with the current \<open>value\<close> only, never with the candidates already
  accepted: with no tags yet and the pending text \<open>a;a\<close>, both candidates survive and
  \<open>onChange\<close> receives \<open>[a, a]\<close>, which is not duplicate-free although the collection it
  started from is duplicate-free and has no empty label.
\<close>

theorem commit_repeated_candidate_not_distinct:
  "distinct (value_of \<lparr>prop_value = Some [], prop_onChange = True\<rparr>) \<and>
   [] \<notin> set (value_of \<lparr>prop_value = Some [], prop_onChange = True\<rparr>) \<and>
   onChange_calls (handleInputConfirm
       \<lparr>prop_value = Some [], prop_onChange = True\<rparr>
       \<lparr>inputVisible = True, inputValue = str ''a;a''\<rparr>)
     = [[str ''a'', str ''a'']] \<and>
   \<not> distinct [str ''a'', str ''a'']"
  by (simp add: eval_defs)

text \<open>
  Claim C4 (scenario A): with the tags \<open>alpha\<close>, \<open>beta\<close> and the pending text
  \<open>gamma; beta ; delta\<close>, the commit passes exactly \<open>alpha\<close>, \<open>beta\<close>, \<open>gamma\<close>, \<open>delta\<close>
  to \<open>onChange\<close>: the existing tags stay in order, the candidates are trimmed and
  appended in input order, and the duplicate \<open>beta\<close> is rejected.
\<close>

theorem scenario_A_commit:
  "onChange_calls (handleInputConfirm
       \<lparr>prop_value = Some [str ''alpha'', str ''beta''], prop_onChange = True\<rparr>
       \<lparr>inputVisible = True, inputValue = str ''gamma; beta ; delta''\<rparr>)
     = [[str ''alpha'', str ''beta'', str ''gamma'', str ''delta'']]"
  by (simp add: eval_defs)

text \<open>
  Claim C5 (scenario D): with the single tag \<open>x\<close> and the pending text \<open>x;x;y\<close>, the
  commit passes exactly \<open>x\<close>, \<open>y\<close> to \<open>onChange\<close>: both candidates \<open>x\<close> are rejected
  against the existing tag and \<open>y\<close> is accepted once.
\<close>

theorem scenario_D_commit:
  "onChange_calls (handleInputConfirm
       \<lparr>prop_value = Some [str ''x''], prop_onChange = True\<rparr>
       \<lparr>inputVisible = True, inputValue = str ''x;x;y''\<rparr>)
     = [[str ''x'', str ''y'']]"
  by (simp add: eval_defs)

text \<open>
  Claim C6: whatever the collection and the pending text, every sequence that a commit
  passes to \<open>onChange\<close> starts with the current collection, and every label appended
  after it is a trimmed piece of the pending text split at the semicolons, is not empty
  and does not occur in the current collection.
\<close>

theorem commit_appends_only_new_nonempty:
  assumes "tags \<in> set (onChange_calls (handleInputConfirm p s))"
  shows "take (length (value_of p)) tags = value_of p \<and>
         (\<forall>t \<in> set (drop (length (value_of p)) tags).
            t \<noteq> [] \<and> t \<notin> set (value_of p) \<and>
            t \<in> trim ` set (split_on semicolon (inputValue s)))"
proof -
  from assms have "tags = value_of p @ newTags_of (value_of p) (inputValue s)"
    by (auto simp: handleInputConfirm_def call_onChange_def split: if_splits)
  then show ?thesis
    using newTags_of_sound [of _ "value_of p" "inputValue s"] by auto
qed

theorem commit_appends_only_new_nonempty_witness:
  "[str ''x'', str ''y''] \<in> set (onChange_calls (handleInputConfirm
       \<lparr>prop_value = Some [str ''x''], prop_onChange = True\<rparr>
       \<lparr>inputVisible = True, inputValue = str ''x; ;y''\<rparr>)) \<and>
   drop (length (value_of \<lparr>prop_value = Some [str ''x''], prop_onChange = True\<rparr>))
     [str ''x'', str ''y''] = [str ''y''] \<and>
   str ''y'' \<noteq> [] \<and>
   str ''y'' \<notin> set (value_of \<lparr>prop_value = Some [str ''x''], prop_onChange = True\<rparr>)"
  using commit_appends_only_new_nonempty
    [of "[str ''x'', str ''y'']" "\<lparr>prop_value = Some [str ''x''], prop_onChange = True\<rparr>"
        "\<lparr>inputVisible = True, inputValue = str ''x; ;y''\<rparr>"]
  by (simp add: eval_defs)

text \<open>
  Claim C3 (scenario C) as the spec states it: no tags, pending text of three blanks, a
  semicolon and two blanks; the commit is claimed to invoke no change callback. The
  commit only tests that the pending text is not empty, so the callback is invoked.
\<close>

theorem commit_blank_candidates_counterexample:
  "onChange_calls (handleInputConfirm
       \<lparr>prop_value = Some [], prop_onChange = True\<rparr>
       \<lparr>inputVisible = True, inputValue = str ''   ;  ''\<rparr>) \<noteq> []"
  by (simp add: eval_defs)

text \<open>
  Claim C3, amended: with no tags (absent or empty \<open>value\<close>) and that pending text, the
  commit invokes the supplied callback exactly once, with the empty sequence, so the
  collection stays empty.
\<close>

theorem commit_blank_candidates_calls_onChange:
  "onChange_calls (handleInputConfirm
       \<lparr>prop_value = Some [], prop_onChange = True\<rparr>
       \<lparr>inputVisible = True, inputValue = str ''   ;  ''\<rparr>) = [[]] \<and>
   onChange_calls (handleInputConfirm
       \<lparr>prop_value = None, prop_onChange = True\<rparr>
       \<lparr>inputVisible = True, inputValue = str ''   ;  ''\<rparr>) = [[]]"
  by (simp add: eval_defs)

text \<open>
  Claim C10: when the pending text is not empty and every candidate is filtered out
  (empty after trimming, or already in the collection), the commit still invokes the
  supplied callback exactly once, with the collection unchanged.
\<close>

theorem commit_all_filtered_passes_value:
  assumes "prop_onChange p" and "inputValue s \<noteq> []"
    and "\<forall>c \<in> set (split_on semicolon (inputValue s)).
           trim c = [] \<or> trim c \<in> set (value_of p)"
  shows "onChange_calls (handleInputConfirm p s) = [value_of p]"
  using assms all_candidates_filtered [of "split_on semicolon (inputValue s)" "value_of p"]
  by (simp add: handleInputConfirm_def call_onChange_def truthy_def newTags_of_def)

theorem commit_all_filtered_passes_value_witness:
  "prop_onChange \<lparr>prop_value = Some [str ''x'', str ''y''], prop_onChange = True\<rparr> \<and>
   inputValue \<lparr>inputVisible = True, inputValue = str ''y; ;x ''\<rparr> \<noteq> [] \<and>
   map trim (split_on semicolon (str ''y; ;x '')) = [str ''y'', [], str ''x''] \<and>
   onChange_calls (handleInputConfirm
       \<lparr>prop_value = Some [str ''x'', str ''y''], prop_onChange = True\<rparr>
       \<lparr>inputVisible = True, inputValue = str ''y; ;x ''\<rparr>)
     = [[str ''x'', str ''y'']]"
  using commit_all_filtered_passes_value
    [of "\<lparr>prop_value = Some [str ''x'', str ''y''], prop_onChange = True\<rparr>"
        "\<lparr>inputVisible = True, inputValue = str ''y; ;x ''\<rparr>"]
  by (simp add: eval_defs)

subsection \<open>Removing a tag\<close>

text \<open>
  Claim C2 as the spec states it: for every sequence and every label in it, removing the
  label gives a sequence one shorter, without one instance of the label. The handler
  filters out every element equal to the label: from \<open>[a, a]\<close>, removing \<open>a\<close> passes the
  empty sequence, of length 0 and not 1.
\<close>

theorem handleClose_duplicate_label_counterexample:
  "str ''a'' \<in> set (value_of \<lparr>prop_value = Some [str ''a'', str ''a''], prop_onChange = True\<rparr>) \<and>
   onChange_calls (handleClose
       \<lparr>prop_value = Some [str ''a'', str ''a''], prop_onChange = True\<rparr>
       initial_state (str ''a'')) = [[]] \<and>
   length ([] :: jsstring list) \<noteq>
     length (value_of \<lparr>prop_value = Some [str ''a'', str ''a''], prop_onChange = True\<rparr>) - 1"
  by (simp add: eval_defs)

text \<open>
  Claim C2, amended: for every sequence \<open>S\<close> and every label \<open>L\<close> in \<open>S\<close>, the removal
  control of \<open>L\<close> runs the remove handler, which leaves the widget state alone and passes
  to the supplied callback exactly one sequence \<open>R\<close>: \<open>S\<close> without every occurrence of
  \<open>L\<close>. \<open>R\<close> keeps the other elements with their multiplicities and in their relative
  order, and its length is the length of \<open>S\<close> minus the number of occurrences of \<open>L\<close>.
  When \<open>L\<close> occurs exactly once in \<open>S\<close> (as it does in a duplicate-free collection),
  \<open>R\<close> is \<open>S\<close> without that one instance and is one shorter than \<open>S\<close>.
\<close>

theorem handleClose_removes_label:
  assumes "prop_onChange p" and "L \<in> set (value_of p)"
  shows "fire p s (Chip_click L) = Some (handleClose p s L) \<and>
         (\<exists>R. onChange_calls (handleClose p s L) = [R] \<and>
           next_state (handleClose p s L) = s \<and>
           length R = length (value_of p) - count_list (value_of p) L \<and>
           mset (value_of p) = mset R + replicate_mset (count_list (value_of p) L) L \<and>
           L \<notin> set R \<and> subseq R (value_of p) \<and>
           (count_list (value_of p) L = 1 \<longrightarrow>
              R = remove1 L (value_of p) \<and> length R = length (value_of p) - 1))"
proof -
  let ?S = "value_of p"
  let ?R = "filter (\<lambda>tag. tag \<noteq> L) ?S"
  have click: "fire p s (Chip_click L) = Some (handleClose p s L)"
    using assms(2) by (simp add: fire_def array_includes_def)
  have calls: "onChange_calls (handleClose p s L) = [?R]"
    using assms(1) by (simp add: handleClose_def call_onChange_def)
  have st: "next_state (handleClose p s L) = s"
    by (simp add: handleClose_def)
  have len: "length ?R = length ?S - count_list ?S L"
    by (rule length_filter_neq)
  have ms: "mset ?S = mset ?R + replicate_mset (count_list ?S L) L"
    by (rule mset_filter_neq)
  have notin: "L \<notin> set ?R" by simp
  have sub: "subseq ?R ?S" by simp
  have once: "count_list ?S L = 1 \<longrightarrow> ?R = remove1 L ?S \<and> length ?R = length ?S - 1"
  proof (intro impI conjI)
    assume one: "count_list ?S L = 1"
    show "?R = remove1 L ?S" by (rule filter_neq_remove1 [OF one])
    show "length ?R = length ?S - 1" using len one by (simp only:)
  qed
  from click calls st len ms notin sub once show ?thesis by blast
qed

theorem handleClose_removes_label_witness:
  "prop_onChange \<lparr>prop_value = Some [str ''a'', str ''b'', str ''c''], prop_onChange = True\<rparr> \<and>
   str ''b'' \<in> set (value_of
       \<lparr>prop_value = Some [str ''a'', str ''b'', str ''c''], prop_onChange = True\<rparr>) \<and>
   count_list (value_of
       \<lparr>prop_value = Some [str ''a'', str ''b'', str ''c''], prop_onChange = True\<rparr>)
     (str ''b'') = 1 \<and>
   onChange_calls (handleClose
       \<lparr>prop_value = Some [str ''a'', str ''b'', str ''c''], prop_onChange = True\<rparr>
       initial_state (str ''b'')) = [[str ''a'', str ''c'']]"
  using handleClose_removes_label
    [of "\<lparr>prop_value = Some [str ''a'', str ''b'', str ''c''], prop_onChange = True\<rparr>"
        "str ''b''" initial_state]
  by (simp add: eval_defs)

subsection \<open>The commit and the widget state\<close>

text \<open>
  Claim C7: a commit with the empty pending text never invokes the change callback and
  leaves the input hidden and the pending text empty; a second such commit, from the
  state the first one leaves, again calls nothing and leaves the same state.
\<close>

theorem commit_empty_text_idempotent:
  assumes "inputValue s = []"
  shows "onChange_calls (handleInputConfirm p s) = [] \<and>
         next_state (handleInputConfirm p s) = \<lparr>inputVisible = False, inputValue = []\<rparr> \<and>
         handleInputConfirm p (next_state (handleInputConfirm p s)) =
           \<lparr>next_state = next_state (handleInputConfirm p s), onChange_calls = []\<rparr>"
  using assms by (simp add: handleInputConfirm_def truthy_def)

theorem commit_empty_text_idempotent_witness:
  "inputValue \<lparr>inputVisible = True, inputValue = []\<rparr> = [] \<and>
   handleInputConfirm \<lparr>prop_value = Some [str ''a''], prop_onChange = True\<rparr>
       \<lparr>inputVisible = True, inputValue = []\<rparr>
     = \<lparr>next_state = initial_state, onChange_calls = []\<rparr> \<and>
   handleInputConfirm \<lparr>prop_value = Some [str ''a''], prop_onChange = True\<rparr> initial_state
     = \<lparr>next_state = initial_state, onChange_calls = []\<rparr>"
  using commit_empty_text_idempotent
    [of "\<lparr>inputVisible = True, inputValue = []\<rparr>"
        "\<lparr>prop_value = Some [str ''a''], prop_onChange = True\<rparr>"]
  by (simp add: eval_defs initial_state_def)

text \<open>
  Claim C8: while the input is shown, a blur and a key-down of Enter both run the commit,
  and the commit always hides the input and empties the pending text, whatever the
  collection, the callback and the pending text are, and whether or not a tag is added.
\<close>

theorem commit_returns_to_idle:
  assumes "inputVisible s" and "ev = Input_blur \<or> ev = Input_keydown (str ''Enter'')"
  shows "fire p s ev = Some (handleInputConfirm p s) \<and>
         next_state (handleInputConfirm p s) = \<lparr>inputVisible = False, inputValue = []\<rparr>"
  using assms by (auto simp: fire_def handleInputConfirm_def)

theorem commit_returns_to_idle_witness:
  "inputVisible \<lparr>inputVisible = True, inputValue = str ''a;b''\<rparr> \<and>
   map_option next_state (fire \<lparr>prop_value = Some [str ''a''], prop_onChange = True\<rparr>
       \<lparr>inputVisible = True, inputValue = str ''a;b''\<rparr> (Input_keydown (str ''Enter'')))
     = Some initial_state \<and>
   map_option next_state (fire \<lparr>prop_value = Some [str ''a''], prop_onChange = True\<rparr>
       \<lparr>inputVisible = True, inputValue = str ''a;b''\<rparr> Input_blur)
     = Some initial_state"
  using commit_returns_to_idle
    [of "\<lparr>inputVisible = True, inputValue = str ''a;b''\<rparr>" "Input_keydown (str ''Enter'')"
        "\<lparr>prop_value = Some [str ''a''], prop_onChange = True\<rparr>"]
    commit_returns_to_idle
    [of "\<lparr>inputVisible = True, inputValue = str ''a;b''\<rparr>" Input_blur
        "\<lparr>prop_value = Some [str ''a''], prop_onChange = True\<rparr>"]
  by (simp add: initial_state_def)

subsection \<open>Absent props\<close>

text \<open>
  Claim C9: every handler and every event behaves with an absent \<open>value\<close> exactly as with
  the empty sequence: the remove passes the empty sequence, the commit passes the
  non-empty trimmed pieces of the pending text, and no chip can be clicked. With an
  absent \<open>onChange\<close> the remove and the commit make no call and fail in no way: the
  remove leaves the state alone, and the commit still hides the input and empties the
  pending text, as it does when the callback is supplied. Every event is possible in
  the same states and has the same next state as with the callback; in particular a
  blur or a key-down of Enter while the input is shown, and a click on the removal
  control of a tag of the collection, do happen and call nothing.
\<close>

theorem absent_props_defaults:
  "handleClose (p\<lparr>prop_value := None\<rparr>) s t = handleClose (p\<lparr>prop_value := Some []\<rparr>) s t \<and>
   handleInputConfirm (p\<lparr>prop_value := None\<rparr>) s =
     handleInputConfirm (p\<lparr>prop_value := Some []\<rparr>) s \<and>
   fire (p\<lparr>prop_value := None\<rparr>) s ev = fire (p\<lparr>prop_value := Some []\<rparr>) s ev \<and>
   handleClose (p\<lparr>prop_onChange := False\<rparr>) s t = \<lparr>next_state = s, onChange_calls = []\<rparr> \<and>
   handleInputConfirm (p\<lparr>prop_onChange := False\<rparr>) s =
     \<lparr>next_state = next_state (handleInputConfirm (p\<lparr>prop_onChange := True\<rparr>) s),
      onChange_calls = []\<rparr> \<and>
   fire (p\<lparr>prop_onChange := False\<rparr>) s ev =
     map_option (\<lambda>out. \<lparr>next_state = next_state out, onChange_calls = []\<rparr>)
       (fire (p\<lparr>prop_onChange := True\<rparr>) s ev) \<and>
   handleInputConfirm (p\<lparr>prop_onChange := False\<rparr>) s =
     \<lparr>next_state = \<lparr>inputVisible = False, inputValue = []\<rparr>, onChange_calls = []\<rparr> \<and>
   fire (p\<lparr>prop_onChange := False\<rparr>) (s\<lparr>inputVisible := True\<rparr>) Input_blur =
     Some \<lparr>next_state = \<lparr>inputVisible = False, inputValue = []\<rparr>, onChange_calls = []\<rparr> \<and>
   fire (p\<lparr>prop_onChange := False\<rparr>) (s\<lparr>inputVisible := True\<rparr>)
       (Input_keydown (str ''Enter'')) =
     Some \<lparr>next_state = \<lparr>inputVisible = False, inputValue = []\<rparr>, onChange_calls = []\<rparr> \<and>
   fire (p\<lparr>prop_value := Some (xs @ t # ys), prop_onChange := False\<rparr>) s (Chip_click t) =
     Some \<lparr>next_state = s, onChange_calls = []\<rparr> \<and>
   handleClose (p\<lparr>prop_value := None, prop_onChange := True\<rparr>) s t =
     \<lparr>next_state = s, onChange_calls = [[]]\<rparr> \<and>
   handleInputConfirm (p\<lparr>prop_value := None, prop_onChange := True\<rparr>) s =
     \<lparr>next_state = \<lparr>inputVisible = False, inputValue = []\<rparr>,
      onChange_calls =
        (if inputValue s = [] then []
         else [filter (\<lambda>tag. tag \<noteq> []) (map trim (split_on semicolon (inputValue s)))])\<rparr> \<and>
   fire (p\<lparr>prop_value := None\<rparr>) s (Chip_click t) = None"
proof -
  have absent_value:
    "handleClose (p\<lparr>prop_value := None\<rparr>) s t = handleClose (p\<lparr>prop_value := Some []\<rparr>) s t"
    "handleInputConfirm (p\<lparr>prop_value := None\<rparr>) s =
       handleInputConfirm (p\<lparr>prop_value := Some []\<rparr>) s"
    "fire (p\<lparr>prop_value := None\<rparr>) s ev = fire (p\<lparr>prop_value := Some []\<rparr>) s ev"
    by (cases ev; simp add: fire_def handleClose_def handleInputConfirm_def value_of_def
          call_onChange_def)+
  have absent_callback:
    "handleClose (p\<lparr>prop_onChange := False\<rparr>) s t = \<lparr>next_state = s, onChange_calls = []\<rparr>"
    "handleInputConfirm (p\<lparr>prop_onChange := False\<rparr>) s =
       \<lparr>next_state = next_state (handleInputConfirm (p\<lparr>prop_onChange := True\<rparr>) s),
        onChange_calls = []\<rparr>"
    "handleInputConfirm (p\<lparr>prop_onChange := False\<rparr>) s =
       \<lparr>next_state = \<lparr>inputVisible = False, inputValue = []\<rparr>, onChange_calls = []\<rparr>"
    by (simp_all add: handleClose_def handleInputConfirm_def call_onChange_def)
  have events_rel:
    "fire (p\<lparr>prop_onChange := False\<rparr>) s ev =
       map_option (\<lambda>out. \<lparr>next_state = next_state out, onChange_calls = []\<rparr>)
         (fire (p\<lparr>prop_onChange := True\<rparr>) s ev)"
    by (cases ev)
      (simp_all add: fire_def handleClose_def handleInputConfirm_def call_onChange_def
         value_of_def)
  have events_abs:
    "fire (p\<lparr>prop_onChange := False\<rparr>) (s\<lparr>inputVisible := True\<rparr>) Input_blur =
       Some \<lparr>next_state = \<lparr>inputVisible = False, inputValue = []\<rparr>, onChange_calls = []\<rparr>"
    "fire (p\<lparr>prop_onChange := False\<rparr>) (s\<lparr>inputVisible := True\<rparr>)
         (Input_keydown (str ''Enter'')) =
       Some \<lparr>next_state = \<lparr>inputVisible = False, inputValue = []\<rparr>, onChange_calls = []\<rparr>"
    "fire (p\<lparr>prop_value := Some (xs @ t # ys), prop_onChange := False\<rparr>) s (Chip_click t) =
       Some \<lparr>next_state = s, onChange_calls = []\<rparr>"
    by (simp_all add: fire_def handleClose_def handleInputConfirm_def call_onChange_def
          value_of_def array_includes_def)
  have empty_value:
    "handleClose (p\<lparr>prop_value := None, prop_onChange := True\<rparr>) s t =
       \<lparr>next_state = s, onChange_calls = [[]]\<rparr>"
    "handleInputConfirm (p\<lparr>prop_value := None, prop_onChange := True\<rparr>) s =
       \<lparr>next_state = \<lparr>inputVisible = False, inputValue = []\<rparr>,
        onChange_calls =
          (if inputValue s = [] then []
           else [filter (\<lambda>tag. tag \<noteq> []) (map trim (split_on semicolon (inputValue s)))])\<rparr>"
    "fire (p\<lparr>prop_value := None\<rparr>) s (Chip_click t) = None"
    by (simp_all add: fire_def widget_defs)
  from absent_value absent_callback events_rel events_abs empty_value
  show ?thesis by (intro conjI)
qed

end
